theory Spec2Isabelle
  imports Main "HOL-Library.Word" "HOL-Library.Code_Target_Numeral"
begin

section \<open>Bytes and arbitrary-precision integers\<close>

text \<open>
  A Go \<open>[]byte\<close> is a list of 8-bit words. A \<open>*big.Int\<close> is an \<open>int\<close>: it is
  unbounded and signed. The three operations of \<open>math/big\<close> the package uses are
  \<open>SetBytes\<close> (big-endian, unsigned), \<open>Bytes\<close> (the big-endian bytes of the absolute
  value, without leading zero bytes; empty for 0) and \<open>BitLen\<close> (the length of the
  absolute value in bits; 0 for 0).
\<close>

type_synonym byte = "8 word"

definition SetBytes :: "byte list \<Rightarrow> int" where
  "SetBytes buf = foldl (\<lambda>acc b. acc * 256 + uint b) 0 buf"

fun nat_Bytes :: "nat \<Rightarrow> byte list" where
  "nat_Bytes n = (if n = 0 then [] else nat_Bytes (n div 256) @ [of_nat (n mod 256)])"

declare nat_Bytes.simps [simp del]

definition Bytes :: "int \<Rightarrow> byte list" where
  "Bytes x = nat_Bytes (nat \<bar>x\<bar>)"

fun nat_BitLen :: "nat \<Rightarrow> nat" where
  "nat_BitLen n = (if n = 0 then 0 else Suc (nat_BitLen (n div 2)))"

declare nat_BitLen.simps [simp del]

definition BitLen :: "int \<Rightarrow> int" where
  "BitLen x = int (nat_BitLen (nat \<bar>x\<bar>))"

text \<open>\<open>func bitsToBytes(bits int) int { return (bits + 7) >> 3 }\<close>\<close>

definition bitsToBytes :: "int \<Rightarrow> int" where
  "bitsToBytes bits = drop_bit 3 (bits + 7)"

section \<open>Errors\<close>

text \<open>
  The package returns errors built from message strings; each constructor below is one
  of these messages. \<open>RuntimePanic\<close> is not a returned error: it stands for a Go
  run-time panic (a slice bound out of range, a division by zero), which unwinds the
  call instead of returning.
\<close>

datatype error =
    SignRequiresHasher          \<comment> \<open>"Sign requires a Hasher"\<close>
  | VerifyRequiresHasher        \<comment> \<open>"Verify requires a Hasher"\<close>
  | ECDSASignFailed             \<comment> \<open>"ECDSA Sign has failed: ..."\<close>
  | SeedTooShort int            \<comment> \<open>"seed should be at least %d bytes"\<close>
  | RawPrivateKeyNotValid       \<comment> \<open>"raw private key is not valid"\<close>
  | RawPublicKeyNotValid        \<comment> \<open>"raw public key is not valid"\<close>
  | RuntimePanic

section \<open>Curves\<close>

text \<open>
  The package builds exactly two algorithm instances, one on \<open>elliptic.P256()\<close> and one
  on \<open>btcec.S256()\<close>. Both curves come from libraries outside the repository; their
  parameters are the published ones (FIPS 186-4 for P-256, SEC 2 for secp256k1).
  \<open>A\<close> is the coefficient of \<open>x\<close> in the curve equation \<open>y\<^sup>2 = x\<^sup>3 + A x + B\<close>,
  which the libraries fix in code (\<open>-3\<close> and \<open>0\<close>).

  The type \<open>SigningAlgorithm\<close> is declared in another file of the package; its two
  identifiers below are the ones this file uses.
\<close>

datatype Curve = P256 | S256

datatype SigningAlgorithm = ECDSAP256 | ECDSASecp256k1

record CurveParams =
  P :: int
  N :: int
  A :: int
  B :: int
  Gx :: int
  Gy :: int
  BitSize :: int

fun Params :: "Curve \<Rightarrow> CurveParams" where
  "Params P256 = \<lparr>
     P = 0xffffffff00000001000000000000000000000000ffffffffffffffffffffffff,
     N = 0xffffffff00000000ffffffffffffffffbce6faada7179e84f3b9cac2fc632551,
     A = - 3,
     B = 0x5ac635d8aa3a93e7b3ebbd55769886bc651d06b0cc53b0f63bce3c3e27d2604b,
     Gx = 0x6b17d1f2e12c4247f8bce6e563a440f277037d812deb33a0f4a13945d898c296,
     Gy = 0x4fe342e2fe1a7f9b8ee7eb4a7c0f9e162bce33576b315ececbb6406837bf51f5,
     BitSize = 256 \<rparr>"
| "Params S256 = \<lparr>
     P = 0xfffffffffffffffffffffffffffffffffffffffffffffffffffffffefffffc2f,
     N = 0xfffffffffffffffffffffffffffffffebaaedce6af48a03bbfd25e8cd0364141,
     A = 0,
     B = 7,
     Gx = 0x79be667ef9dcbbac55a06295ce870b07029bfcdb2dce28d959f2815b16f81798,
     Gy = 0x483ada7726a3c4655da4fbfc0e1108a8fd17b448a68554199c47d08ffb10d4b8,
     BitSize = 256 \<rparr>"


section \<open>Library model: \<open>crypto/elliptic\<close> and \<open>crypto/ecdsa\<close>\<close>

text \<open>
  The curve arithmetic and \<open>ecdsa.Verify\<close> belong to libraries outside the repository.
  They are modelled by their documented contracts: points are affine pairs, the pair
  \<open>(0, 0)\<close> stands for the point at infinity, \<open>ScalarBaseMult k\<close> is \<open>k * G\<close> for the
  big-endian scalar \<open>k\<close>, and \<open>ecdsa.Verify\<close> follows the steps of the Go standard
  library. Both moduli (\<open>P\<close> and \<open>N\<close>) are primes, so an inverse is a power.
\<close>

type_synonym point = "int \<times> int"

fun modpow :: "int \<Rightarrow> nat \<Rightarrow> int \<Rightarrow> int" where
  "modpow b e m =
     (if e = 0 then 1 mod m
      else let h = modpow b (e div 2) m; sq = (h * h) mod m
           in if even e then sq else (sq * b) mod m)"

declare modpow.simps [simp del]

definition ModInverse :: "int \<Rightarrow> int \<Rightarrow> int" where
  "ModInverse g n = modpow g (nat (n - 2)) n"

definition IsOnCurve :: "Curve \<Rightarrow> point \<Rightarrow> bool" where
  "IsOnCurve c pt =
     (let p = P (Params c); x = fst pt; y = snd pt
      in 0 \<le> x \<and> x < p \<and> 0 \<le> y \<and> y < p \<and>
         (y * y) mod p = (x * x * x + A (Params c) * x + B (Params c)) mod p)"

definition Add :: "Curve \<Rightarrow> point \<Rightarrow> point \<Rightarrow> point" where
  "Add c p1 p2 =
     (let p = P (Params c); x1 = fst p1; y1 = snd p1; x2 = fst p2; y2 = snd p2
      in if p1 = (0, 0) then p2
         else if p2 = (0, 0) then p1
         else if (x1 - x2) mod p = 0 \<and> (y1 + y2) mod p = 0 then (0, 0)
         else let lam = (if (x1 - x2) mod p = 0
                         then (3 * x1 * x1 + A (Params c)) * ModInverse (2 * y1) p
                         else (y2 - y1) * ModInverse (x2 - x1) p) mod p;
                  x3 = (lam * lam - x1 - x2) mod p;
                  y3 = (lam * (x1 - x3) - y1) mod p
              in (x3, y3))"

fun nat_ScalarMult :: "Curve \<Rightarrow> point \<Rightarrow> nat \<Rightarrow> point" where
  "nat_ScalarMult c pt k =
     (if k = 0 then (0, 0)
      else let h = nat_ScalarMult c pt (k div 2); d = Add c h h
           in if even k then d else Add c d pt)"

declare nat_ScalarMult.simps [simp del]

definition ScalarMult :: "Curve \<Rightarrow> point \<Rightarrow> byte list \<Rightarrow> point" where
  "ScalarMult c pt k = nat_ScalarMult c pt (nat (SetBytes k))"

definition ScalarBaseMult :: "Curve \<Rightarrow> byte list \<Rightarrow> point" where
  "ScalarBaseMult c k = ScalarMult c (Gx (Params c), Gy (Params c)) k"

record goecdsa_PublicKey =
  Curve :: Curve
  X :: int
  Y :: int

record goecdsa_PrivateKey =
  PublicKey :: goecdsa_PublicKey
  D :: int

text \<open>
  \<open>hashToInt\<close> of \<open>crypto/ecdsa\<close>: the leftmost bits of the digest, as many as the
  order has.
\<close>

definition hashToInt :: "byte list \<Rightarrow> Curve \<Rightarrow> int" where
  "hashToInt hash c =
     (let orderBits = BitLen (N (Params c));
          orderBytes = (orderBits + 7) div 8;
          hash' = (if int (length hash) > orderBytes then take (nat orderBytes) hash else hash);
          ret = SetBytes hash';
          excess = int (length hash') * 8 - orderBits
      in if excess > 0 then drop_bit (nat excess) ret else ret)"

definition goecdsa_Verify :: "goecdsa_PublicKey \<Rightarrow> byte list \<Rightarrow> int \<Rightarrow> int \<Rightarrow> bool" where
  "goecdsa_Verify pub hash r s =
     (let c = Curve pub; n = N (Params c)
      in if r \<le> 0 \<or> s \<le> 0 then False
         else if r \<ge> n \<or> s \<ge> n then False
         else let e = hashToInt hash c;
                  w = ModInverse s n;
                  u1 = (e * w) mod n;
                  u2 = (r * w) mod n;
                  p1 = ScalarBaseMult c (Bytes u1);
                  p2 = ScalarMult c (X pub, Y pub) (Bytes u2);
                  q = Add c p1 p2
              in if fst q = 0 \<and> snd q = 0 then False else fst q mod n = r)"

text \<open>
  \<open>ecdsa.Sign(rand.Reader, priv, hash)\<close> reads the system's randomness, so its result
  is an input of the model: a function from the key and the digest to the pair
  \<open>(r, s)\<close>, or \<open>None\<close> when the library reports an error.
\<close>

type_synonym goecdsa_Sign = "goecdsa_PrivateKey \<Rightarrow> byte list \<Rightarrow> (int \<times> int) option"

text \<open>
  \<open>k.Mod(k, n)\<close> of \<open>math/big\<close>: the Euclidean modulus; a zero modulus panics.
\<close>

definition big_Mod :: "int \<Rightarrow> int \<Rightarrow> error + int" where
  "big_Mod x y = (if y = 0 then Inl RuntimePanic else Inr (x mod \<bar>y\<bar>))"

text \<open>
  \<open>copy(dst[off:], src)\<close>, returning the updated \<open>dst\<close>: slicing panics when \<open>off\<close>
  is negative or beyond the length; \<open>copy\<close> writes as many bytes as fit.
\<close>

definition copy_from :: "byte list \<Rightarrow> int \<Rightarrow> byte list \<Rightarrow> error + byte list" where
  "copy_from dst off src =
     (if off < 0 \<or> int (length dst) < off then Inl RuntimePanic
      else let i = nat off; n = min (length dst - i) (length src)
           in Inr (take i dst @ take n src @ drop (i + n) dst))"


section \<open>The package: \<open>crypto/internal/crypto/ecdsa.go\<close>\<close>

record ecdsaAlgo =
  curve :: Curve
  algo :: SigningAlgorithm

definition newECDSAP256 :: ecdsaAlgo where
  "newECDSAP256 = \<lparr>curve = P256, algo = ECDSAP256\<rparr>"

definition newECDSASecp256k1 :: ecdsaAlgo where
  "newECDSASecp256k1 = \<lparr>curve = S256, algo = ECDSASecp256k1\<rparr>"

text \<open>
  The two key structs. Both have a field \<open>alg\<close> in the source; the public key's is
  \<open>pk_alg\<close> here, since one theory cannot have two record fields of one name.
\<close>

record PrKeyECDSA =
  alg :: ecdsaAlgo
  goPrKey :: goecdsa_PrivateKey

record PubKeyECDSA =
  pk_alg :: ecdsaAlgo
  goPubKey :: goecdsa_PublicKey

text \<open>
  The interfaces \<open>PrivateKey\<close> and \<open>PublicKey\<close>: a value is a key of this file or of
  another implementation, which \<open>Equals\<close> tells apart by a type assertion.
\<close>

datatype PrivateKey = ECDSAPrivateKey PrKeyECDSA | OtherPrivateKey

datatype PublicKey = ECDSAPublicKey PubKeyECDSA | OtherPublicKey

text \<open>A hasher is an interface value: \<open>None\<close> is \<open>nil\<close>, \<open>Some H\<close> has \<open>ComputeHash = H\<close>.\<close>

type_synonym Hasher = "(byte list \<Rightarrow> byte list) option"

text \<open>
  Modelled from the spec: the constant \<open>securityBits\<close> is declared in another file of
  the package; the spec gives the extra seed length as 16 bytes, that is 128 bits.
\<close>

definition securityBits :: int where
  "securityBits = 128"

text \<open>\<open>var one = new(big.Int).SetInt64(1)\<close>\<close>

definition one_int :: int where
  "one_int = 1"

definition signHash :: "goecdsa_Sign \<Rightarrow> PrKeyECDSA \<Rightarrow> byte list \<Rightarrow> error + byte list" where
  "signHash gosign sk h =
     (case gosign (goPrKey sk) h of
        None \<Rightarrow> Inl ECDSASignFailed
      | Some (r, s) \<Rightarrow>
          let rBytes = Bytes r;
              sBytes = Bytes s;
              Nlen = bitsToBytes (BitLen (N (Params (curve (alg sk)))));
              signature = replicate (nat (2 * Nlen)) 0
          in (case copy_from signature (Nlen - int (length rBytes)) rBytes of
                Inl e \<Rightarrow> Inl e
              | Inr signature \<Rightarrow>
                  copy_from signature (2 * Nlen - int (length sBytes)) sBytes))"

definition Sign :: "goecdsa_Sign \<Rightarrow> PrKeyECDSA \<Rightarrow> byte list \<Rightarrow> Hasher \<Rightarrow> error + byte list" where
  "Sign gosign sk data hasher =
     (case hasher of
        None \<Rightarrow> Inl SignRequiresHasher
      | Some H \<Rightarrow> signHash gosign sk (H data))"

text \<open>
  \<open>sig[:Nlen]\<close> and \<open>sig[Nlen:]\<close>: the second slice panics when \<open>Nlen\<close> is beyond the
  length of \<open>sig\<close>; there is no other check of the length.
\<close>

definition verifyHash :: "PubKeyECDSA \<Rightarrow> byte list \<Rightarrow> byte list \<Rightarrow> error + bool" where
  "verifyHash pk sig h =
     (let Nlen = bitsToBytes (BitLen (N (Params (curve (pk_alg pk)))))
      in if int (length sig) < Nlen then Inl RuntimePanic
         else let r = SetBytes (take (nat Nlen) sig);
                  s = SetBytes (drop (nat Nlen) sig)
              in Inr (goecdsa_Verify (goPubKey pk) h r s))"

definition Verify :: "PubKeyECDSA \<Rightarrow> byte list \<Rightarrow> byte list \<Rightarrow> Hasher \<Rightarrow> error + bool" where
  "Verify pk sig data hasher =
     (case hasher of
        None \<Rightarrow> Inl VerifyRequiresHasher
      | Some H \<Rightarrow> verifyHash pk sig (H data))"

definition goecdsaGenerateKey :: "Curve \<Rightarrow> byte list \<Rightarrow> error + goecdsa_PrivateKey" where
  "goecdsaGenerateKey c seed =
     (let k = SetBytes seed;
          n = N (Params c) - one_int
      in case big_Mod k n of
           Inl e \<Rightarrow> Inl e
         | Inr k \<Rightarrow>
             let k = k + one_int;
                 xy = ScalarBaseMult c (Bytes k)
             in Inr \<lparr>PublicKey = \<lparr>Curve = c, X = fst xy, Y = snd xy\<rparr>, D = k\<rparr>)"

definition generatePrivateKey :: "ecdsaAlgo \<Rightarrow> byte list \<Rightarrow> error + PrKeyECDSA" where
  "generatePrivateKey a seed =
     (let Nlen = bitsToBytes (BitLen (N (Params (curve a))));
          minSeedLen = Nlen + securityBits div 8
      in if int (length seed) < minSeedLen then Inl (SeedTooShort minSeedLen)
         else case goecdsaGenerateKey (curve a) seed of
                Inl e \<Rightarrow> Inl e
              | Inr sk \<Rightarrow> Inr \<lparr>alg = a, goPrKey = sk\<rparr>)"

definition rawDecodePrivateKey :: "ecdsaAlgo \<Rightarrow> byte list \<Rightarrow> error + PrKeyECDSA" where
  "rawDecodePrivateKey a der =
     (let Nlen = bitsToBytes (BitLen (N (Params (curve a))))
      in if int (length der) \<noteq> Nlen then Inl RawPrivateKeyNotValid
         else let d = SetBytes der;
                  xy = ScalarBaseMult (curve a) der
              in Inr \<lparr>alg = a,
                      goPrKey = \<lparr>PublicKey = \<lparr>Curve = curve a, X = fst xy, Y = snd xy\<rparr>,
                                 D = d\<rparr>\<rparr>)"

definition decodePrivateKey :: "ecdsaAlgo \<Rightarrow> byte list \<Rightarrow> error + PrKeyECDSA" where
  "decodePrivateKey a der = rawDecodePrivateKey a der"

definition rawDecodePublicKey :: "ecdsaAlgo \<Rightarrow> byte list \<Rightarrow> error + PubKeyECDSA" where
  "rawDecodePublicKey a der =
     (let Plen = bitsToBytes (BitLen (P (Params (curve a))))
      in if int (length der) \<noteq> 2 * Plen then Inl RawPublicKeyNotValid
         else let x = SetBytes (take (nat Plen) der);
                  y = SetBytes (drop (nat Plen) der)
              in Inr \<lparr>pk_alg = a, goPubKey = \<lparr>Curve = curve a, X = x, Y = y\<rparr>\<rparr>)"

definition decodePublicKey :: "ecdsaAlgo \<Rightarrow> byte list \<Rightarrow> error + PubKeyECDSA" where
  "decodePublicKey a der = rawDecodePublicKey a der"

subsection \<open>Methods of \<open>PrKeyECDSA\<close>\<close>

definition PrKeyECDSA_Algorithm :: "PrKeyECDSA \<Rightarrow> SigningAlgorithm" where
  "PrKeyECDSA_Algorithm sk = algo (alg sk)"

definition PrKeyECDSA_Size :: "PrKeyECDSA \<Rightarrow> int" where
  "PrKeyECDSA_Size sk = bitsToBytes (BitLen (N (Params (curve (alg sk)))))"

definition PrKeyECDSA_PublicKey :: "PrKeyECDSA \<Rightarrow> PubKeyECDSA" where
  "PrKeyECDSA_PublicKey sk = \<lparr>pk_alg = alg sk, goPubKey = PublicKey (goPrKey sk)\<rparr>"

definition PrKeyECDSA_rawEncode :: "PrKeyECDSA \<Rightarrow> error + byte list" where
  "PrKeyECDSA_rawEncode sk =
     (let skBytes = Bytes (D (goPrKey sk));
          Nlen = bitsToBytes (BitLen (N (Params (curve (alg sk)))));
          skEncoded = replicate (nat Nlen) 0
      in copy_from skEncoded (Nlen - int (length skBytes)) skBytes)"

definition PrKeyECDSA_Encode :: "PrKeyECDSA \<Rightarrow> error + byte list" where
  "PrKeyECDSA_Encode sk = PrKeyECDSA_rawEncode sk"

definition PrKeyECDSA_Equals :: "PrKeyECDSA \<Rightarrow> PrivateKey \<Rightarrow> bool" where
  "PrKeyECDSA_Equals sk other =
     (case other of
        OtherPrivateKey \<Rightarrow> False
      | ECDSAPrivateKey otherECDSA \<Rightarrow>
          if curve (alg sk) \<noteq> curve (alg otherECDSA) then False
          else D (goPrKey sk) = D (goPrKey otherECDSA))"

subsection \<open>Methods of \<open>PubKeyECDSA\<close>\<close>

definition PubKeyECDSA_Algorithm :: "PubKeyECDSA \<Rightarrow> SigningAlgorithm" where
  "PubKeyECDSA_Algorithm pk = algo (pk_alg pk)"

definition PubKeyECDSA_Size :: "PubKeyECDSA \<Rightarrow> int" where
  "PubKeyECDSA_Size pk = 2 * bitsToBytes (BitLen (P (Params (Curve (goPubKey pk)))))"

definition PubKeyECDSA_rawEncode :: "PubKeyECDSA \<Rightarrow> error + byte list" where
  "PubKeyECDSA_rawEncode pk =
     (let xBytes = Bytes (X (goPubKey pk));
          yBytes = Bytes (Y (goPubKey pk));
          Plen = bitsToBytes (BitLen (P (Params (curve (pk_alg pk)))));
          pkEncoded = replicate (nat (2 * Plen)) 0
      in case copy_from pkEncoded (Plen - int (length xBytes)) xBytes of
           Inl e \<Rightarrow> Inl e
         | Inr pkEncoded \<Rightarrow> copy_from pkEncoded (2 * Plen - int (length yBytes)) yBytes)"

definition PubKeyECDSA_Encode :: "PubKeyECDSA \<Rightarrow> error + byte list" where
  "PubKeyECDSA_Encode pk = PubKeyECDSA_rawEncode pk"

definition PubKeyECDSA_Equals :: "PubKeyECDSA \<Rightarrow> PublicKey \<Rightarrow> bool" where
  "PubKeyECDSA_Equals pk other =
     (case other of
        OtherPublicKey \<Rightarrow> False
      | ECDSAPublicKey otherECDSA \<Rightarrow>
          if curve (pk_alg pk) \<noteq> curve (pk_alg otherECDSA) then False
          else X (goPubKey pk) = X (goPubKey otherECDSA) \<and>
               Y (goPubKey pk) = Y (goPubKey otherECDSA))"

section \<open>Auxiliary notions\<close>

text \<open>A point whose two coordinates are reduced modulo the field prime.\<close>

definition in_field :: "Curve \<Rightarrow> point \<Rightarrow> bool" where
  "in_field c pt = (0 \<le> fst pt \<and> fst pt < P (Params c) \<and> 0 \<le> snd pt \<and> snd pt < P (Params c))"

text \<open>
  The byte lengths that the functions recompute at each call: \<open>Nlen\<close> for the order
  and \<open>Plen\<close> for the field prime.
\<close>

abbreviation Nlen_of :: "Curve \<Rightarrow> int" where
  "Nlen_of c \<equiv> bitsToBytes (BitLen (N (Params c)))"

abbreviation Plen_of :: "Curve \<Rightarrow> int" where
  "Plen_of c \<equiv> bitsToBytes (BitLen (P (Params c)))"

section \<open>Facts about the encodings\<close>

lemma nat_BitLen_bounds: "2 ^ k \<le> n \<Longrightarrow> n < 2 ^ Suc k \<Longrightarrow> nat_BitLen n = Suc k"
proof (induction k arbitrary: n)
  case 0
  then have "n = 1" by simp
  then show ?case by (simp add: nat_BitLen.simps)
next
  case (Suc k)
  have "2 ^ k \<le> n div 2" using Suc.prems(1) by simp
  moreover have "n div 2 < 2 ^ Suc k" using Suc.prems(2) by simp
  ultimately have "nat_BitLen (n div 2) = Suc k" by (rule Suc.IH)
  moreover have "n \<noteq> 0"
  proof -
    have "0 < (2::nat) ^ Suc k" by simp
    with Suc.prems(1) show ?thesis by linarith
  qed
  ultimately show ?case by (subst nat_BitLen.simps) simp
qed

lemma BitLen_256: "2 ^ 255 \<le> x \<Longrightarrow> x < 2 ^ 256 \<Longrightarrow> BitLen x = 256"
proof -
  assume a: "2 ^ 255 \<le> x" and b: "x < 2 ^ 256"
  have "2 ^ 255 \<le> nat \<bar>x\<bar>" using a by (simp add: le_nat_iff)
  moreover have "nat \<bar>x\<bar> < 2 ^ Suc 255" using a b by (simp add: nat_less_iff)
  ultimately have "nat_BitLen (nat \<bar>x\<bar>) = Suc 255" by (rule nat_BitLen_bounds)
  then show ?thesis by (simp add: BitLen_def)
qed

lemma bitsToBytes_256: "bitsToBytes 256 = 32"
  by (simp add: bitsToBytes_def drop_bit_eq_div)

lemma Nlen_eq: "bitsToBytes (BitLen (N (Params c))) = 32"
proof -
  have "BitLen (N (Params c)) = 256"
    by (cases c) (simp_all add: BitLen_256)
  then show ?thesis by (simp add: bitsToBytes_256)
qed

lemma Plen_eq: "bitsToBytes (BitLen (P (Params c))) = 32"
proof -
  have "BitLen (P (Params c)) = 256"
    by (cases c) (simp_all add: BitLen_256)
  then show ?thesis by (simp add: bitsToBytes_256)
qed

lemma N_bounds: "2 \<le> N (Params c) \<and> N (Params c) < 2 ^ 256"
  by (cases c) simp_all

lemma P_bounds: "2 \<le> P (Params c) \<and> P (Params c) < 2 ^ 256"
  by (cases c) simp_all


lemma SetBytes_Nil: "SetBytes [] = 0"
  by (simp add: SetBytes_def)

lemma SetBytes_snoc: "SetBytes (bs @ [b]) = SetBytes bs * 256 + uint b"
  by (simp add: SetBytes_def)

lemma SetBytes_append: "SetBytes (xs @ ys) = SetBytes xs * 256 ^ length ys + SetBytes ys"
proof (induction ys rule: rev_induct)
  case Nil
  show ?case by (simp add: SetBytes_Nil)
next
  case (snoc y ys)
  have "SetBytes (xs @ ys @ [y]) = SetBytes ((xs @ ys) @ [y])" by simp
  also have "\<dots> = SetBytes (xs @ ys) * 256 + uint y" by (rule SetBytes_snoc)
  also have "\<dots> = (SetBytes xs * 256 ^ length ys + SetBytes ys) * 256 + uint y"
    by (simp only: snoc.IH)
  also have "\<dots> = SetBytes xs * 256 ^ length (ys @ [y]) + SetBytes (ys @ [y])"
    by (simp add: SetBytes_snoc algebra_simps)
  finally show ?case .
qed

lemma SetBytes_Cons: "SetBytes (b # bs) = uint b * 256 ^ length bs + SetBytes bs"
  using SetBytes_append [of "[b]" bs] by (simp add: SetBytes_def)

lemma SetBytes_zeros: "SetBytes (replicate k 0) = 0"
  by (induction k) (simp_all add: SetBytes_Nil SetBytes_Cons)

lemma SetBytes_pad: "SetBytes (replicate k 0 @ bs) = SetBytes bs"
  by (simp add: SetBytes_append SetBytes_zeros)

lemma SetBytes_range: "0 \<le> SetBytes bs \<and> SetBytes bs < 256 ^ length bs"
proof (induction bs rule: rev_induct)
  case Nil
  show ?case by (simp add: SetBytes_Nil)
next
  case (snoc b bs)
  have b: "0 \<le> uint b \<and> uint b < 256"
    using uint_bounded [of b] by simp
  have "SetBytes bs + 1 \<le> 256 ^ length bs" using snoc.IH by simp
  then have "(SetBytes bs + 1) * 256 \<le> 256 ^ length bs * 256" by simp
  with b snoc.IH show ?case by (simp add: SetBytes_snoc algebra_simps)
qed

lemma uint_byte_of_nat: "uint (of_nat (n mod 256) :: byte) = int (n mod 256)"
proof -
  have "unat (of_nat (n mod 256) :: byte) = (n mod 256) mod 2 ^ LENGTH(8)"
    by (rule unat_of_nat)
  then have "unat (of_nat (n mod 256) :: byte) = n mod 256" by simp
  then show ?thesis by (metis uint_nat)
qed

lemma SetBytes_nat_Bytes: "SetBytes (nat_Bytes n) = int n"
proof (induction n rule: nat_Bytes.induct)
  case (1 n)
  show ?case
  proof (cases "n = 0")
    case True
    then show ?thesis by (simp add: nat_Bytes.simps SetBytes_Nil)
  next
    case False
    then have ih: "SetBytes (nat_Bytes (n div 256)) = int (n div 256)" by (rule "1.IH")
    have "nat_Bytes n = nat_Bytes (n div 256) @ [of_nat (n mod 256)]"
      using False by (subst nat_Bytes.simps) simp
    then have "SetBytes (nat_Bytes n) = int (n div 256) * 256 + int (n mod 256)"
      by (simp only: SetBytes_snoc ih uint_byte_of_nat)
    also have "\<dots> = int (n div 256 * 256 + n mod 256)"
      by (simp only: of_nat_add of_nat_mult of_nat_numeral)
    also have "\<dots> = int n" by (simp only: div_mult_mod_eq)
    finally show ?thesis .
  qed
qed

lemma SetBytes_Bytes: "0 \<le> x \<Longrightarrow> SetBytes (Bytes x) = x"
  by (simp add: Bytes_def SetBytes_nat_Bytes)

lemma length_nat_Bytes: "n < 256 ^ k \<Longrightarrow> length (nat_Bytes n) \<le> k"
proof (induction n arbitrary: k rule: nat_Bytes.induct)
  case (1 n)
  show ?case
  proof (cases "n = 0")
    case True
    then show ?thesis by (simp add: nat_Bytes.simps)
  next
    case False
    then obtain j where k: "k = Suc j" using "1.prems" by (cases k) auto
    have "n div 256 < 256 ^ j" using "1.prems" k by (simp add: less_mult_imp_div_less)
    with False have "length (nat_Bytes (n div 256)) \<le> j" by (rule "1.IH")
    moreover have "nat_Bytes n = nat_Bytes (n div 256) @ [of_nat (n mod 256)]"
      using False by (subst nat_Bytes.simps) simp
    ultimately show ?thesis using k by simp
  qed
qed

lemma length_Bytes: "0 \<le> x \<Longrightarrow> x < 256 ^ k \<Longrightarrow> length (Bytes x) \<le> k"
proof -
  assume a: "0 \<le> x" and b: "x < 256 ^ k"
  have "nat \<bar>x\<bar> < 256 ^ k" using a b by (simp add: nat_less_iff)
  then show ?thesis unfolding Bytes_def by (rule length_nat_Bytes)
qed

lemma copy_from_length: "copy_from dst off src = Inr out \<Longrightarrow> length out = length dst"
  by (auto simp: copy_from_def Let_def split: if_splits)

lemma copy_from_pad:
  "length src \<le> n \<Longrightarrow>
   copy_from (replicate n 0) (int n - int (length src)) src = Inr (replicate (n - length src) 0 @ src)"
  by (simp add: copy_from_def Let_def min_def nat_diff_distrib' flip: of_nat_diff)

section \<open>Facts about the curve operations and key generation\<close>

lemma Add_in_field: "in_field c p1 \<Longrightarrow> in_field c p2 \<Longrightarrow> in_field c (Add c p1 p2)"
proof -
  assume a: "in_field c p1" and b: "in_field c p2"
  have p: "0 < P (Params c)" using P_bounds [of c] by simp
  have z: "in_field c (0, 0)" using p by (simp add: in_field_def)
  have m: "in_field c (u mod P (Params c), v mod P (Params c))" for u v
    using p by (simp add: in_field_def)
  show ?thesis
    unfolding Add_def Let_def using a b z m by simp
qed

lemma nat_ScalarMult_in_field: "in_field c pt \<Longrightarrow> in_field c (nat_ScalarMult c pt k)"
proof (induction c pt k rule: nat_ScalarMult.induct)
  case (1 c pt k)
  have p: "0 < P (Params c)" using P_bounds [of c] by simp
  show ?case
  proof (cases "k = 0")
    case True
    then show ?thesis using p by (simp add: nat_ScalarMult.simps in_field_def)
  next
    case False
    then have h: "in_field c (nat_ScalarMult c pt (k div 2))" using "1.prems" by (rule "1.IH")
    then have d: "in_field c (Add c (nat_ScalarMult c pt (k div 2)) (nat_ScalarMult c pt (k div 2)))"
      by (rule Add_in_field [OF h])
    show ?thesis
      using False d Add_in_field [OF d "1.prems"]
      by (subst nat_ScalarMult.simps) (simp add: Let_def)
  qed
qed

lemma G_in_field: "in_field c (Gx (Params c), Gy (Params c))"
  by (cases c) (simp_all add: in_field_def)

lemma ScalarBaseMult_in_field: "in_field c (ScalarBaseMult c k)"
  unfolding ScalarBaseMult_def ScalarMult_def
  by (rule nat_ScalarMult_in_field [OF G_in_field])

lemma ScalarBaseMult_SetBytes:
  "SetBytes k = SetBytes k' \<Longrightarrow> ScalarBaseMult c k = ScalarBaseMult c k'"
  by (simp add: ScalarBaseMult_def ScalarMult_def)

lemma goecdsaGenerateKey_eq:
  "goecdsaGenerateKey c seed =
     Inr \<lparr>PublicKey = \<lparr>Curve = c,
                         X = fst (ScalarBaseMult c (Bytes (SetBytes seed mod (N (Params c) - 1) + 1))),
                         Y = snd (ScalarBaseMult c (Bytes (SetBytes seed mod (N (Params c) - 1) + 1)))\<rparr>,
          D = SetBytes seed mod (N (Params c) - 1) + 1\<rparr>"
proof -
  have n: "0 < N (Params c) - 1" using N_bounds [of c] by simp
  then show ?thesis
    by (simp add: goecdsaGenerateKey_def big_Mod_def one_int_def Let_def)
qed

lemma generatePrivateKey_eq:
  "generatePrivateKey a seed =
     (if int (length seed) < 48 then Inl (SeedTooShort 48)
      else Inr \<lparr>alg = a, goPrKey =
        \<lparr>PublicKey = \<lparr>Curve = curve a,
            X = fst (ScalarBaseMult (curve a) (Bytes (SetBytes seed mod (N (Params (curve a)) - 1) + 1))),
            Y = snd (ScalarBaseMult (curve a) (Bytes (SetBytes seed mod (N (Params (curve a)) - 1) + 1)))\<rparr>,
          D = SetBytes seed mod (N (Params (curve a)) - 1) + 1\<rparr>\<rparr>)"
  by (simp add: generatePrivateKey_def Nlen_eq securityBits_def goecdsaGenerateKey_eq Let_def)

lemma scalar_range:
  "1 \<le> k mod (N (Params c) - 1) + 1 \<and> k mod (N (Params c) - 1) + 1 \<le> N (Params c) - 1"
proof -
  have n: "0 < N (Params c) - 1" using N_bounds [of c] by simp
  have "0 \<le> k mod (N (Params c) - 1)" using n by simp
  moreover have "k mod (N (Params c) - 1) < N (Params c) - 1" using n by simp
  ultimately show ?thesis by simp
qed

lemma SetBytes_seed48: "SetBytes (replicate 48 1) = 0x010101010101010101010101010101010101010101010101010101010101010101010101010101010101010101010101"
  by (simp add: SetBytes_def numeral_eq_Suc)

section \<open>Facts about decoding and encoding keys\<close>

lemma rawDecodePrivateKey_eq:
  "rawDecodePrivateKey a der =
     (if int (length der) = Nlen_of (curve a)
      then Inr \<lparr>alg = a,
                goPrKey = \<lparr>PublicKey = \<lparr>Curve = curve a,
                                         X = fst (ScalarBaseMult (curve a) der),
                                         Y = snd (ScalarBaseMult (curve a) der)\<rparr>,
                           D = SetBytes der\<rparr>\<rparr>
      else Inl RawPrivateKeyNotValid)"
  by (simp add: rawDecodePrivateKey_def Let_def)

lemma rawDecodePublicKey_eq:
  "rawDecodePublicKey a der =
     (if int (length der) = 2 * Plen_of (curve a)
      then Inr \<lparr>pk_alg = a,
                goPubKey = \<lparr>Curve = curve a,
                            X = SetBytes (take (nat (Plen_of (curve a))) der),
                            Y = SetBytes (drop (nat (Plen_of (curve a))) der)\<rparr>\<rparr>
      else Inl RawPublicKeyNotValid)"
  by (simp add: rawDecodePublicKey_def Let_def)

lemma pow256_32: "(256::int) ^ 32 = 2 ^ 256"
  by simp

lemma PrKeyECDSA_rawEncode_eq:
  assumes "0 \<le> D (goPrKey sk)" and "D (goPrKey sk) < 2 ^ 256"
  shows "PrKeyECDSA_rawEncode sk
           = Inr (replicate (32 - length (Bytes (D (goPrKey sk)))) 0 @ Bytes (D (goPrKey sk)))"
proof -
  have "D (goPrKey sk) < 256 ^ 32" using assms(2) by (simp only: pow256_32)
  with assms(1) have len: "length (Bytes (D (goPrKey sk))) \<le> 32" by (rule length_Bytes)
  have "copy_from (replicate 32 0) (int 32 - int (length (Bytes (D (goPrKey sk)))))
          (Bytes (D (goPrKey sk)))
        = Inr (replicate (32 - length (Bytes (D (goPrKey sk)))) 0 @ Bytes (D (goPrKey sk)))"
    using len by (rule copy_from_pad)
  then show ?thesis
    by (simp add: PrKeyECDSA_rawEncode_def Nlen_eq Let_def)
qed

lemma copy_from_mid:
  "copy_from (pre @ replicate k 0 @ replicate (length src) 0 @ post) (int (length pre + k)) src
     = Inr (pre @ replicate k 0 @ src @ post)"
  by (simp add: copy_from_def Let_def)

lemma replicate_split: "m \<le> n \<Longrightarrow> replicate n x = replicate (n - m) x @ replicate m x"
  by (simp add: replicate_add [symmetric])

lemma PubKeyECDSA_rawEncode_eq:
  assumes "0 \<le> X (goPubKey pk)" and "X (goPubKey pk) < 2 ^ 256"
      and "0 \<le> Y (goPubKey pk)" and "Y (goPubKey pk) < 2 ^ 256"
  shows "PubKeyECDSA_rawEncode pk
           = Inr (replicate (32 - length (Bytes (X (goPubKey pk)))) 0 @ Bytes (X (goPubKey pk))
                  @ replicate (32 - length (Bytes (Y (goPubKey pk)))) 0 @ Bytes (Y (goPubKey pk)))"
proof -
  let ?xs = "Bytes (X (goPubKey pk))" and ?ys = "Bytes (Y (goPubKey pk))"
  let ?px = "replicate (32 - length ?xs) (0::byte)" and ?py = "replicate (32 - length ?ys) (0::byte)"
  have "X (goPubKey pk) < 256 ^ 32" using assms(2) by (simp only: pow256_32)
  with assms(1) have lx: "length ?xs \<le> 32" by (rule length_Bytes)
  have "Y (goPubKey pk) < 256 ^ 32" using assms(4) by (simp only: pow256_32)
  with assms(3) have ly: "length ?ys \<le> 32" by (rule length_Bytes)
  have d0: "replicate 64 (0::byte) = [] @ ?px @ replicate (length ?xs) 0 @ replicate 32 0"
    using replicate_split [OF lx, of "0::byte"] by (simp add: replicate_add [symmetric])
  have o0: "32 - int (length ?xs) = int (length ([]::byte list) + (32 - length ?xs))"
    using lx by simp
  have cx: "copy_from (replicate 64 0) (32 - int (length ?xs)) ?xs
              = Inr ([] @ ?px @ ?xs @ replicate 32 0)"
    unfolding d0 o0 by (rule copy_from_mid)
  have d1: "[] @ ?px @ ?xs @ replicate 32 (0::byte)
              = (?px @ ?xs) @ ?py @ replicate (length ?ys) 0 @ []"
    using replicate_split [OF ly, of "0::byte"] by simp
  have o1: "64 - int (length ?ys) = int (length (?px @ ?xs) + (32 - length ?ys))"
    using lx ly by simp
  have cy: "copy_from ([] @ ?px @ ?xs @ replicate 32 0) (64 - int (length ?ys)) ?ys
              = Inr ((?px @ ?xs) @ ?py @ ?ys @ [])"
    unfolding d1 o1 by (rule copy_from_mid)
  show ?thesis
    using cx cy by (simp add: PubKeyECDSA_rawEncode_def Plen_eq Let_def)
qed

lemma SetBytes_replicate_255: "SetBytes (replicate n 255) = 256 ^ n - 1"
  by (induction n) (simp_all add: SetBytes_Nil SetBytes_Cons)

lemma SetBytes_ones32: "SetBytes (replicate 32 255) = 0xffffffffffffffffffffffffffffffffffffffffffffffffffffffffffffffff"
  by (simp add: SetBytes_replicate_255)

lemma curve_newECDSAP256: "curve newECDSAP256 = P256"
  by (simp add: newECDSAP256_def)

lemma curve_newECDSASecp256k1: "curve newECDSASecp256k1 = S256"
  by (simp add: newECDSASecp256k1_def)

lemma ScalarBaseMult_zero: "SetBytes k = 0 \<Longrightarrow> ScalarBaseMult c k = (0, 0)"
  by (simp add: ScalarBaseMult_def ScalarMult_def nat_ScalarMult.simps)

lemma goecdsa_Verify_out_of_range:
  "r \<le> 0 \<or> s \<le> 0 \<or> N (Params (Curve pub)) \<le> r \<or> N (Params (Curve pub)) \<le> s
   \<Longrightarrow> goecdsa_Verify pub h r s = False"
  by (auto simp: goecdsa_Verify_def Let_def)

lemma verifyHash_eq:
  "Nlen_of (curve (pk_alg pk)) \<le> int (length sig) \<Longrightarrow>
   verifyHash pk sig h =
     Inr (goecdsa_Verify (goPubKey pk) h
            (SetBytes (take (nat (Nlen_of (curve (pk_alg pk)))) sig))
            (SetBytes (drop (nat (Nlen_of (curve (pk_alg pk)))) sig)))"
  by (simp add: verifyHash_def Let_def)

lemma PrKeyECDSA_Encode_length:
  assumes "0 \<le> D (goPrKey sk)" and "D (goPrKey sk) < 2 ^ 256"
  shows "\<exists>enc. PrKeyECDSA_Encode sk = Inr enc \<and> int (length enc) = PrKeyECDSA_Size sk"
proof -
  have "D (goPrKey sk) < 256 ^ 32" using assms(2) by (simp only: pow256_32)
  with assms(1) have "length (Bytes (D (goPrKey sk))) \<le> 32" by (rule length_Bytes)
  then show ?thesis
    unfolding PrKeyECDSA_Encode_def PrKeyECDSA_rawEncode_eq [OF assms]
    by (simp add: PrKeyECDSA_Size_def Nlen_eq)
qed

lemma PubKeyECDSA_Encode_length:
  assumes "0 \<le> X (goPubKey pk)" and "X (goPubKey pk) < 2 ^ 256"
      and "0 \<le> Y (goPubKey pk)" and "Y (goPubKey pk) < 2 ^ 256"
  shows "\<exists>enc. PubKeyECDSA_Encode pk = Inr enc \<and> int (length enc) = PubKeyECDSA_Size pk"
proof -
  have "X (goPubKey pk) < 256 ^ 32" using assms(2) by (simp only: pow256_32)
  with assms(1) have lx: "length (Bytes (X (goPubKey pk))) \<le> 32" by (rule length_Bytes)
  have "Y (goPubKey pk) < 256 ^ 32" using assms(4) by (simp only: pow256_32)
  with assms(3) have ly: "length (Bytes (Y (goPubKey pk))) \<le> 32" by (rule length_Bytes)
  show ?thesis
    unfolding PubKeyECDSA_Encode_def PubKeyECDSA_rawEncode_eq [OF assms]
    using lx ly by (simp add: PubKeyECDSA_Size_def Plen_eq)
qed

lemma ScalarBaseMult_bounds:
  "0 \<le> fst (ScalarBaseMult c k) \<and> fst (ScalarBaseMult c k) < 2 ^ 256
   \<and> 0 \<le> snd (ScalarBaseMult c k) \<and> snd (ScalarBaseMult c k) < 2 ^ 256"
  using ScalarBaseMult_in_field [of c k] P_bounds [of c] by (simp add: in_field_def)

lemma generated_key_bounds:
  assumes "generatePrivateKey a seed = Inr sk"
  shows "0 \<le> D (goPrKey sk) \<and> D (goPrKey sk) < 2 ^ 256
         \<and> 0 \<le> X (PublicKey (goPrKey sk)) \<and> X (PublicKey (goPrKey sk)) < 2 ^ 256
         \<and> 0 \<le> Y (PublicKey (goPrKey sk)) \<and> Y (PublicKey (goPrKey sk)) < 2 ^ 256"
proof -
  let ?d = "SetBytes seed mod (N (Params (curve a)) - 1) + 1"
  have "1 \<le> ?d \<and> ?d \<le> N (Params (curve a)) - 1" by (rule scalar_range)
  then have d: "0 \<le> ?d \<and> ?d < 2 ^ 256" using N_bounds [of "curve a"] by simp
  from assms have "sk = \<lparr>alg = a, goPrKey =
        \<lparr>PublicKey = \<lparr>Curve = curve a,
            X = fst (ScalarBaseMult (curve a) (Bytes ?d)),
            Y = snd (ScalarBaseMult (curve a) (Bytes ?d))\<rparr>,
          D = ?d\<rparr>\<rparr>"
    by (simp add: generatePrivateKey_eq split: if_splits)
  then show ?thesis
    using d ScalarBaseMult_bounds [of "curve a" "Bytes ?d"] by simp
qed

lemma decoded_private_key_bounds:
  assumes "decodePrivateKey a der = Inr sk"
  shows "0 \<le> D (goPrKey sk) \<and> D (goPrKey sk) < 2 ^ 256
         \<and> 0 \<le> X (PublicKey (goPrKey sk)) \<and> X (PublicKey (goPrKey sk)) < 2 ^ 256
         \<and> 0 \<le> Y (PublicKey (goPrKey sk)) \<and> Y (PublicKey (goPrKey sk)) < 2 ^ 256"
proof -
  from assms have len: "length der = 32"
    and sk: "sk = \<lparr>alg = a,
                goPrKey = \<lparr>PublicKey = \<lparr>Curve = curve a,
                                         X = fst (ScalarBaseMult (curve a) der),
                                         Y = snd (ScalarBaseMult (curve a) der)\<rparr>,
                           D = SetBytes der\<rparr>\<rparr>"
    by (simp_all add: decodePrivateKey_def rawDecodePrivateKey_eq Nlen_eq split: if_splits)
  have "0 \<le> SetBytes der \<and> SetBytes der < 256 ^ length der" by (rule SetBytes_range)
  then have "0 \<le> SetBytes der \<and> SetBytes der < 2 ^ 256" by (simp add: len)
  then show ?thesis
    unfolding sk using ScalarBaseMult_bounds [of "curve a" der] by simp
qed

lemma decoded_public_key_bounds:
  assumes "decodePublicKey a der = Inr pk"
  shows "0 \<le> X (goPubKey pk) \<and> X (goPubKey pk) < 2 ^ 256
         \<and> 0 \<le> Y (goPubKey pk) \<and> Y (goPubKey pk) < 2 ^ 256"
proof -
  from assms have len: "length der = 64"
    and pk: "pk = \<lparr>pk_alg = a,
                goPubKey = \<lparr>Curve = curve a,
                            X = SetBytes (take 32 der),
                            Y = SetBytes (drop 32 der)\<rparr>\<rparr>"
    by (simp_all add: decodePublicKey_def rawDecodePublicKey_eq Plen_eq split: if_splits)
  have "0 \<le> SetBytes (take 32 der) \<and> SetBytes (take 32 der) < 256 ^ length (take 32 der)"
    by (rule SetBytes_range)
  then have x: "0 \<le> SetBytes (take 32 der) \<and> SetBytes (take 32 der) < 2 ^ 256"
    by (simp add: len)
  have "0 \<le> SetBytes (drop 32 der) \<and> SetBytes (drop 32 der) < 256 ^ length (drop 32 der)"
    by (rule SetBytes_range)
  then have y: "0 \<le> SetBytes (drop 32 der) \<and> SetBytes (drop 32 der) < 2 ^ 256"
    by (simp add: len)
  show ?thesis unfolding pk using x y by simp
qed

lemma Bytes_example:
  "Bytes 0x435c61b45051b886ec1ab16936000aa50ca81bfe996ad41c0c29192c288bb2
     = [67, 92, 97, 180, 80, 81, 184, 134, 236, 26, 177, 105, 54, 0, 10,
        165, 12, 168, 27, 254, 153, 106, 212, 28, 12, 41, 25, 44, 40, 139, 178]"
  by (simp add: Bytes_def nat_Bytes.simps)

section \<open>Key generation\<close>

text \<open>
  Claim C1. For either algorithm and every seed of at least \<open>Nlen + 16\<close> bytes,
  \<open>generatePrivateKey\<close> returns a key for that algorithm whose scalar is
  \<open>d = (k mod (n - 1)) + 1\<close>, where \<open>k\<close> is the seed read as a big-endian unsigned
  integer and \<open>n\<close> the order of the curve; \<open>d\<close> lies in \<open>[1, n - 1]\<close>; and the public
  point of the key is \<open>d * G\<close>, the scalar multiple of the generator.
\<close>

theorem generatePrivateKey_derives_key:
  assumes "bitsToBytes (BitLen (N (Params (curve a)))) + 16 \<le> int (length seed)"
  shows "\<exists>sk. generatePrivateKey a seed = Inr sk
           \<and> alg sk = a
           \<and> Curve (PublicKey (goPrKey sk)) = curve a
           \<and> D (goPrKey sk) = SetBytes seed mod (N (Params (curve a)) - 1) + 1
           \<and> 1 \<le> D (goPrKey sk) \<and> D (goPrKey sk) \<le> N (Params (curve a)) - 1
           \<and> (X (PublicKey (goPrKey sk)), Y (PublicKey (goPrKey sk)))
               = nat_ScalarMult (curve a) (Gx (Params (curve a)), Gy (Params (curve a)))
                   (nat (D (goPrKey sk)))"
proof -
  let ?d = "SetBytes seed mod (N (Params (curve a)) - 1) + 1"
  have len: "\<not> int (length seed) < 48" using assms by (simp add: Nlen_eq)
  have r: "1 \<le> ?d \<and> ?d \<le> N (Params (curve a)) - 1" by (rule scalar_range)
  then have "SetBytes (Bytes ?d) = ?d" by (simp add: SetBytes_Bytes)
  then have pt: "ScalarBaseMult (curve a) (Bytes ?d)
      = nat_ScalarMult (curve a) (Gx (Params (curve a)), Gy (Params (curve a))) (nat ?d)"
    by (simp add: ScalarBaseMult_def ScalarMult_def)
  show ?thesis
    using len r pt by (simp add: generatePrivateKey_eq)
qed

text \<open>
  The 48-byte seed of all \<open>0x01\<close> on P-256: the scalar is the fixed value that the
  reduction formula gives.
\<close>

theorem generatePrivateKey_derives_key_witness:
  "bitsToBytes (BitLen (N (Params (curve newECDSAP256)))) + 16 \<le> int (length (replicate 48 (1::byte)))
   \<and> (\<exists>sk. generatePrivateKey newECDSAP256 (replicate 48 1) = Inr sk
         \<and> D (goPrKey sk) = 0x435c61b45051b886ec1ab16936000aa50ca81bfe996ad41c0c29192c288bb2
         \<and> (X (PublicKey (goPrKey sk)), Y (PublicKey (goPrKey sk)))
               = nat_ScalarMult P256 (Gx (Params P256), Gy (Params P256)) (nat (D (goPrKey sk))))"
proof -
  have h: "bitsToBytes (BitLen (N (Params (curve newECDSAP256)))) + 16
             \<le> int (length (replicate 48 (1::byte)))"
    by (simp add: Nlen_eq)
  have c: "curve newECDSAP256 = P256" by (simp add: newECDSAP256_def)
  from generatePrivateKey_derives_key [OF h] obtain sk where
    sk: "generatePrivateKey newECDSAP256 (replicate 48 1) = Inr sk"
    and d: "D (goPrKey sk) = SetBytes (replicate 48 1) mod (N (Params (curve newECDSAP256)) - 1) + 1"
    and pt: "(X (PublicKey (goPrKey sk)), Y (PublicKey (goPrKey sk)))
               = nat_ScalarMult (curve newECDSAP256)
                   (Gx (Params (curve newECDSAP256)), Gy (Params (curve newECDSAP256)))
                   (nat (D (goPrKey sk)))"
    by blast
  have "D (goPrKey sk) = 0x435c61b45051b886ec1ab16936000aa50ca81bfe996ad41c0c29192c288bb2"
    unfolding d c by (simp add: SetBytes_seed48)
  with sk pt c h show ?thesis by auto
qed

text \<open>
  Claim C7. \<open>generatePrivateKey\<close> fails with the seed-length error exactly when the
  seed is shorter than \<open>Nlen + 16\<close> bytes, and returns a key exactly when the seed has
  at least \<open>Nlen + 16\<close> bytes; in particular a seed of exactly \<open>Nlen\<close> bytes is
  rejected.
\<close>

theorem generatePrivateKey_seed_length_check:
  "(generatePrivateKey a seed = Inl (SeedTooShort (bitsToBytes (BitLen (N (Params (curve a)))) + 16)))
     = (int (length seed) < bitsToBytes (BitLen (N (Params (curve a)))) + 16)
   \<and> (\<exists>sk. generatePrivateKey a seed = Inr sk)
     = (bitsToBytes (BitLen (N (Params (curve a)))) + 16 \<le> int (length seed))
   \<and> (int (length seed) = bitsToBytes (BitLen (N (Params (curve a))))
        \<longrightarrow> generatePrivateKey a seed
              = Inl (SeedTooShort (bitsToBytes (BitLen (N (Params (curve a)))) + 16)))"
  by (simp add: generatePrivateKey_eq Nlen_eq)

theorem generatePrivateKey_seed_length_check_witness:
  "int (length (replicate 32 (1::byte))) = bitsToBytes (BitLen (N (Params (curve newECDSASecp256k1))))
   \<and> generatePrivateKey newECDSASecp256k1 (replicate 32 1) = Inl (SeedTooShort 48)
   \<and> (\<exists>sk. generatePrivateKey newECDSASecp256k1 (replicate 48 1) = Inr sk)"
  using generatePrivateKey_seed_length_check [of newECDSASecp256k1 "replicate 32 1"]
        generatePrivateKey_seed_length_check [of newECDSASecp256k1 "replicate 48 1"]
  by (simp add: Nlen_eq)

section \<open>Signing and verifying\<close>

text \<open>
  Claim C9. \<open>Sign\<close> with a nil hasher fails with the error "Sign requires a Hasher"
  and produces no signature; \<open>Verify\<close> with a nil hasher fails with the error
  "Verify requires a Hasher" and produces no verdict. This holds for every key, message
  and signature, and whatever the signing library would have answered.
\<close>

theorem Sign_Verify_require_hasher:
  "Sign gosign sk data None = Inl SignRequiresHasher
   \<and> Verify pk sig data' None = Inl VerifyRequiresHasher"
  by (simp add: Sign_def Verify_def)

text \<open>
  Claim C5. For every public key, message and hasher, and every signature of exactly
  \<open>2 * Nlen\<close> bytes whose half \<open>r\<close> or \<open>s\<close> is zero or at least the order \<open>n\<close> of the
  key's curve, \<open>Verify\<close> returns \<open>false\<close> as a normal result, with no error.
\<close>

theorem Verify_out_of_range_is_false:
  assumes "int (length sig) = 2 * Nlen_of (curve (pk_alg pk))"
      and "r = SetBytes (take (nat (Nlen_of (curve (pk_alg pk)))) sig)"
      and "s = SetBytes (drop (nat (Nlen_of (curve (pk_alg pk)))) sig)"
      and "r = 0 \<or> s = 0 \<or> N (Params (Curve (goPubKey pk))) \<le> r
           \<or> N (Params (Curve (goPubKey pk))) \<le> s"
  shows "Verify pk sig data (Some H) = Inr False"
proof -
  have len: "Nlen_of (curve (pk_alg pk)) \<le> int (length sig)"
    using assms(1) by (simp add: Nlen_eq)
  have "goecdsa_Verify (goPubKey pk) (H data) r s = False"
    using assms(4) by (intro goecdsa_Verify_out_of_range) auto
  then show ?thesis
    unfolding assms(2,3) by (simp add: Verify_def verifyHash_eq [OF len])
qed

text \<open>
  A signature on P-256 with \<open>r = 2\<^sup>2\<^sup>5\<^sup>6 - 1\<close> (above the order) and \<open>s = 0\<close>; the
  hasher returns the first 32 bytes of the message.
\<close>

theorem Verify_out_of_range_is_false_witness:
  "int (length (replicate 32 (255::byte) @ replicate 32 0))
      = 2 * Nlen_of (curve (pk_alg \<lparr>pk_alg = newECDSAP256,
              goPubKey = \<lparr>Curve = P256, X = Gx (Params P256), Y = Gy (Params P256)\<rparr>\<rparr>))
   \<and> N (Params P256) \<le> SetBytes (replicate 32 255)
   \<and> SetBytes (replicate 32 0) = 0
   \<and> Verify \<lparr>pk_alg = newECDSAP256,
              goPubKey = \<lparr>Curve = P256, X = Gx (Params P256), Y = Gy (Params P256)\<rparr>\<rparr>
        (replicate 32 255 @ replicate 32 0) [1, 2, 3] (Some (take 32)) = Inr False"
proof -
  let ?pk = "\<lparr>pk_alg = newECDSAP256,
              goPubKey = \<lparr>Curve = P256, X = Gx (Params P256), Y = Gy (Params P256)\<rparr>\<rparr>"
  let ?sig = "replicate 32 (255::byte) @ replicate 32 0"
  have n: "nat (Nlen_of (curve (pk_alg ?pk))) = 32" by (simp add: Nlen_eq del: Params.simps)
  have l: "int (length ?sig) = 2 * Nlen_of (curve (pk_alg ?pk))"
    by (simp add: Nlen_eq del: Params.simps)
  have r: "SetBytes (replicate 32 255) = SetBytes (take (nat (Nlen_of (curve (pk_alg ?pk)))) ?sig)"
    unfolding n by simp
  have s: "SetBytes (replicate 32 0) = SetBytes (drop (nat (Nlen_of (curve (pk_alg ?pk)))) ?sig)"
    unfolding n by simp
  have big: "N (Params P256) \<le> SetBytes (replicate 32 255)"
    by (simp add: SetBytes_ones32)
  have c: "SetBytes (replicate 32 255) = 0 \<or> SetBytes (replicate 32 0) = 0
        \<or> N (Params (Curve (goPubKey ?pk))) \<le> SetBytes (replicate 32 255)
        \<or> N (Params (Curve (goPubKey ?pk))) \<le> SetBytes (replicate 32 0)"
    by (simp add: SetBytes_zeros)
  show ?thesis
    using l big Verify_out_of_range_is_false [OF l r s c, of "[1, 2, 3]" "take 32"]
    by (simp add: SetBytes_zeros)
qed

text \<open>
  Claim C3, as the spec states it, fails: \<open>Verify\<close> never returns an error for the
  length of the signature. A signature of 32 bytes on P-256 (not \<open>2 * Nlen = 64\<close>) is
  read as \<open>r = 0\<close>, \<open>s = 0\<close> and the result is the verdict \<open>false\<close>.
\<close>

theorem Verify_wrong_length_counterexample:
  "int (length (replicate 32 (0::byte))) \<noteq> 2 * Nlen_of P256
   \<and> Verify \<lparr>pk_alg = newECDSAP256,
              goPubKey = \<lparr>Curve = P256, X = Gx (Params P256), Y = Gy (Params P256)\<rparr>\<rparr>
        (replicate 32 0) [1, 2, 3] (Some (take 32)) = Inr False"
proof -
  let ?pk = "\<lparr>pk_alg = newECDSAP256,
              goPubKey = \<lparr>Curve = P256, X = Gx (Params P256), Y = Gy (Params P256)\<rparr>\<rparr>"
  let ?n = "nat (Nlen_of (curve (pk_alg ?pk)))"
  let ?sig = "replicate 32 (0::byte)"
  have n: "?n = 32" by (simp add: Nlen_eq del: Params.simps)
  have len: "Nlen_of (curve (pk_alg ?pk)) \<le> int (length ?sig)"
    by (simp add: Nlen_eq del: Params.simps)
  have v: "goecdsa_Verify (goPubKey ?pk) (take 32 [1, 2, 3])
             (SetBytes (take ?n ?sig)) (SetBytes (drop ?n ?sig)) = False"
    unfolding n by (rule goecdsa_Verify_out_of_range) (simp add: SetBytes_zeros)
  have "Verify ?pk ?sig [1, 2, 3] (Some (take 32)) = Inr False"
    unfolding Verify_def option.case verifyHash_eq [OF len] v ..
  moreover have "int (length ?sig) \<noteq> 2 * Nlen_of P256"
    by (simp add: Nlen_eq del: Params.simps)
  ultimately show ?thesis by (simp only: simp_thms)
qed

text \<open>
  Claim C3, amended. For every public key, message and hasher, and every signature of
  at least \<open>Nlen\<close> bytes, whatever its length, \<open>Verify\<close> returns a verdict and no error:
  the first \<open>Nlen\<close> bytes are read as \<open>r\<close>, all the bytes after them as \<open>s\<close>, and the
  verdict is that of the ECDSA verification of \<open>(r, s)\<close>.
\<close>

theorem Verify_returns_verdict_for_any_length:
  assumes "Nlen_of (curve (pk_alg pk)) \<le> int (length sig)"
  shows "Verify pk sig data (Some H) =
           Inr (goecdsa_Verify (goPubKey pk) (H data)
                  (SetBytes (take (nat (Nlen_of (curve (pk_alg pk)))) sig))
                  (SetBytes (drop (nat (Nlen_of (curve (pk_alg pk)))) sig)))"
  by (simp add: Verify_def verifyHash_eq [OF assms])

text \<open>A signature of 65 bytes on secp256k1.\<close>

theorem Verify_returns_verdict_for_any_length_witness:
  "Nlen_of (curve (pk_alg \<lparr>pk_alg = newECDSASecp256k1,
              goPubKey = \<lparr>Curve = S256, X = Gx (Params S256), Y = Gy (Params S256)\<rparr>\<rparr>))
      \<le> int (length (replicate 65 (0::byte)))
   \<and> Verify \<lparr>pk_alg = newECDSASecp256k1,
              goPubKey = \<lparr>Curve = S256, X = Gx (Params S256), Y = Gy (Params S256)\<rparr>\<rparr>
        (replicate 65 0) [] (Some (take 32)) = Inr False"
proof -
  let ?pk = "\<lparr>pk_alg = newECDSASecp256k1,
              goPubKey = \<lparr>Curve = S256, X = Gx (Params S256), Y = Gy (Params S256)\<rparr>\<rparr>"
  let ?n = "nat (Nlen_of (curve (pk_alg ?pk)))"
  let ?sig = "replicate 65 (0::byte)"
  have n: "?n = 32" by (simp add: Nlen_eq del: Params.simps)
  have len: "Nlen_of (curve (pk_alg ?pk)) \<le> int (length ?sig)"
    by (simp add: Nlen_eq del: Params.simps)
  have v: "goecdsa_Verify (goPubKey ?pk) (take 32 [])
             (SetBytes (take ?n ?sig)) (SetBytes (drop ?n ?sig)) = False"
    unfolding n by (rule goecdsa_Verify_out_of_range) (simp add: SetBytes_zeros)
  have "Verify ?pk ?sig [] (Some (take 32)) = Inr False"
    using Verify_returns_verdict_for_any_length [OF len, of "[]" "take 32"]
    unfolding v .
  with len show ?thesis by (rule conjI)
qed

section \<open>Decoding keys\<close>

text \<open>
  Claim C2, as the spec states it, fails: \<open>decodePublicKey\<close> makes no check of the
  point. On P-256 it returns a key for the 64 zero bytes, which are the point \<open>(0, 0)\<close>
  (the library's point at infinity, not on the curve), and a key for \<open>(1, 1)\<close>, which
  is not on the curve either.
\<close>

theorem decodePublicKey_off_curve_counterexample:
  "decodePublicKey newECDSAP256 (replicate 64 0)
     = Inr \<lparr>pk_alg = newECDSAP256, goPubKey = \<lparr>Curve = P256, X = 0, Y = 0\<rparr>\<rparr>
   \<and> \<not> IsOnCurve P256 (0, 0)
   \<and> decodePublicKey newECDSAP256 (replicate 31 0 @ [1] @ replicate 31 0 @ [1])
     = Inr \<lparr>pk_alg = newECDSAP256, goPubKey = \<lparr>Curve = P256, X = 1, Y = 1\<rparr>\<rparr>
   \<and> \<not> IsOnCurve P256 (1, 1)"
proof -
  have t: "take 32 (replicate 64 (0::byte)) = replicate 32 0" by simp
  have d: "drop 32 (replicate 64 (0::byte)) = replicate 32 0" by simp
  have 1: "decodePublicKey newECDSAP256 (replicate 64 0)
     = Inr \<lparr>pk_alg = newECDSAP256, goPubKey = \<lparr>Curve = P256, X = 0, Y = 0\<rparr>\<rparr>"
    using t d
    by (simp add: decodePublicKey_def rawDecodePublicKey_eq Plen_eq SetBytes_zeros
        curve_newECDSAP256 del: Params.simps)
  have 2: "\<not> IsOnCurve P256 (0, 0)"
    by (simp add: IsOnCurve_def)
  have "SetBytes (replicate 31 0 @ [1]) = 1"
    by (simp add: SetBytes_pad) (simp add: SetBytes_def)
  then have 3: "decodePublicKey newECDSAP256 (replicate 31 0 @ [1] @ replicate 31 0 @ [1])
     = Inr \<lparr>pk_alg = newECDSAP256, goPubKey = \<lparr>Curve = P256, X = 1, Y = 1\<rparr>\<rparr>"
    by (simp add: decodePublicKey_def rawDecodePublicKey_eq Plen_eq
        curve_newECDSAP256 del: Params.simps)
  have 4: "\<not> IsOnCurve P256 (1, 1)"
    by (simp add: IsOnCurve_def)
  from 1 2 3 4 show ?thesis by (simp only: simp_thms)
qed

text \<open>
  Claim C2, amended. \<open>decodePublicKey\<close> fails, with the error "raw public key is not
  valid", exactly when the buffer is not \<open>2 * Plen\<close> bytes long; a buffer of exactly
  \<open>2 * Plen\<close> bytes always decodes, to the key whose coordinates are the big-endian
  values of its two halves, with no check that the point is on the curve or differs
  from the point at infinity.
\<close>

theorem decodePublicKey_checks_length_only:
  "decodePublicKey a der =
     (if int (length der) = 2 * Plen_of (curve a)
      then Inr \<lparr>pk_alg = a,
                goPubKey = \<lparr>Curve = curve a,
                            X = SetBytes (take (nat (Plen_of (curve a))) der),
                            Y = SetBytes (drop (nat (Plen_of (curve a))) der)\<rparr>\<rparr>
      else Inl RawPublicKeyNotValid)"
  by (simp only: decodePublicKey_def rawDecodePublicKey_eq)

theorem decodePublicKey_checks_length_only_witness:
  "decodePublicKey newECDSASecp256k1 (replicate 63 0) = Inl RawPublicKeyNotValid
   \<and> decodePublicKey newECDSASecp256k1 (replicate 64 255)
     = Inr \<lparr>pk_alg = newECDSASecp256k1,
             goPubKey = \<lparr>Curve = S256,
                         X = 0xffffffffffffffffffffffffffffffffffffffffffffffffffffffffffffffff,
                         Y = 0xffffffffffffffffffffffffffffffffffffffffffffffffffffffffffffffff\<rparr>\<rparr>"
proof -
  have t: "take 32 (replicate 64 (255::byte)) = replicate 32 255" by simp
  have d: "drop 32 (replicate 64 (255::byte)) = replicate 32 255" by simp
  have 1: "decodePublicKey newECDSASecp256k1 (replicate 63 0) = Inl RawPublicKeyNotValid"
    using decodePublicKey_checks_length_only [of newECDSASecp256k1 "replicate 63 0"]
    by (simp add: Plen_eq del: Params.simps)
  have 2: "decodePublicKey newECDSASecp256k1 (replicate 64 255)
     = Inr \<lparr>pk_alg = newECDSASecp256k1,
             goPubKey = \<lparr>Curve = S256,
                         X = 0xffffffffffffffffffffffffffffffffffffffffffffffffffffffffffffffff,
                         Y = 0xffffffffffffffffffffffffffffffffffffffffffffffffffffffffffffffff\<rparr>\<rparr>"
    using decodePublicKey_checks_length_only [of newECDSASecp256k1 "replicate 64 255"] t d
    by (simp add: Plen_eq SetBytes_ones32 curve_newECDSASecp256k1 del: Params.simps)
  from 1 2 show ?thesis by (rule conjI)
qed

text \<open>
  Claim C6, as the spec states it, fails: on P-256 the 32 zero bytes decode to a key
  with scalar \<open>0\<close>, and the 32 bytes \<open>0xff\<close> decode to a key with scalar
  \<open>2\<^sup>2\<^sup>5\<^sup>6 - 1\<close>, which is above the order.
\<close>

theorem decodePrivateKey_out_of_range_counterexample:
  "decodePrivateKey newECDSAP256 (replicate 32 0)
     = Inr \<lparr>alg = newECDSAP256,
             goPrKey = \<lparr>PublicKey = \<lparr>Curve = P256, X = 0, Y = 0\<rparr>, D = 0\<rparr>\<rparr>
   \<and> decodePrivateKey newECDSAP256 (replicate 32 255)
     = Inr \<lparr>alg = newECDSAP256,
             goPrKey = \<lparr>PublicKey = \<lparr>Curve = P256,
                                      X = fst (ScalarBaseMult P256 (replicate 32 255)),
                                      Y = snd (ScalarBaseMult P256 (replicate 32 255))\<rparr>,
                        D = 0xffffffffffffffffffffffffffffffffffffffffffffffffffffffffffffffff\<rparr>\<rparr>
   \<and> N (Params P256) \<le> 0xffffffffffffffffffffffffffffffffffffffffffffffffffffffffffffffff"
proof -
  have "decodePrivateKey newECDSAP256 (replicate 32 0)
     = Inr \<lparr>alg = newECDSAP256,
             goPrKey = \<lparr>PublicKey = \<lparr>Curve = P256, X = 0, Y = 0\<rparr>, D = 0\<rparr>\<rparr>"
    by (simp add: decodePrivateKey_def rawDecodePrivateKey_eq Nlen_eq SetBytes_zeros
        ScalarBaseMult_zero curve_newECDSAP256 del: Params.simps)
  moreover have "decodePrivateKey newECDSAP256 (replicate 32 255)
     = Inr \<lparr>alg = newECDSAP256,
             goPrKey = \<lparr>PublicKey = \<lparr>Curve = P256,
                                      X = fst (ScalarBaseMult P256 (replicate 32 255)),
                                      Y = snd (ScalarBaseMult P256 (replicate 32 255))\<rparr>,
                        D = 0xffffffffffffffffffffffffffffffffffffffffffffffffffffffffffffffff\<rparr>\<rparr>"
    by (simp add: decodePrivateKey_def rawDecodePrivateKey_eq Nlen_eq SetBytes_ones32
        curve_newECDSAP256 del: Params.simps)
  moreover have "N (Params P256)
      \<le> 0xffffffffffffffffffffffffffffffffffffffffffffffffffffffffffffffff"
    by simp
  ultimately show ?thesis by (simp only: simp_thms)
qed

text \<open>
  Claim C6, amended. \<open>decodePrivateKey\<close> rejects a buffer, as a whole and with the error
  "raw private key is not valid", exactly when it is not \<open>Nlen\<close> bytes long; a buffer
  of exactly \<open>Nlen\<close> bytes always decodes, to the key whose scalar is the big-endian
  value \<open>d\<close> of the buffer, whatever \<open>d\<close> is (also \<open>d = 0\<close> and \<open>d \<ge> n\<close>), with the
  public point \<open>d * G\<close>.
\<close>

theorem decodePrivateKey_checks_length_only:
  "decodePrivateKey a der =
     (if int (length der) = Nlen_of (curve a)
      then Inr \<lparr>alg = a,
                goPrKey = \<lparr>PublicKey = \<lparr>Curve = curve a,
                                         X = fst (ScalarBaseMult (curve a) der),
                                         Y = snd (ScalarBaseMult (curve a) der)\<rparr>,
                           D = SetBytes der\<rparr>\<rparr>
      else Inl RawPrivateKeyNotValid)"
  by (simp only: decodePrivateKey_def rawDecodePrivateKey_eq)

theorem decodePrivateKey_checks_length_only_witness:
  "decodePrivateKey newECDSASecp256k1 (replicate 31 0) = Inl RawPrivateKeyNotValid
   \<and> decodePrivateKey newECDSASecp256k1 (replicate 33 0) = Inl RawPrivateKeyNotValid
   \<and> decodePrivateKey newECDSASecp256k1 (replicate 32 0)
     = Inr \<lparr>alg = newECDSASecp256k1,
             goPrKey = \<lparr>PublicKey = \<lparr>Curve = S256, X = 0, Y = 0\<rparr>, D = 0\<rparr>\<rparr>"
proof -
  have 1: "decodePrivateKey newECDSASecp256k1 (replicate 31 0) = Inl RawPrivateKeyNotValid"
    using decodePrivateKey_checks_length_only [of newECDSASecp256k1 "replicate 31 0"]
    by (simp add: Nlen_eq del: Params.simps)
  have 2: "decodePrivateKey newECDSASecp256k1 (replicate 33 0) = Inl RawPrivateKeyNotValid"
    using decodePrivateKey_checks_length_only [of newECDSASecp256k1 "replicate 33 0"]
    by (simp add: Nlen_eq del: Params.simps)
  have 3: "decodePrivateKey newECDSASecp256k1 (replicate 32 0)
     = Inr \<lparr>alg = newECDSASecp256k1,
             goPrKey = \<lparr>PublicKey = \<lparr>Curve = S256, X = 0, Y = 0\<rparr>, D = 0\<rparr>\<rparr>"
    using decodePrivateKey_checks_length_only [of newECDSASecp256k1 "replicate 32 0"]
    by (simp add: Nlen_eq SetBytes_zeros ScalarBaseMult_zero curve_newECDSASecp256k1
        del: Params.simps)
  from 1 2 3 show ?thesis by (simp only: simp_thms)
qed

section \<open>Encoding keys\<close>

text \<open>
  Claim C4. For every seed of at least \<open>Nlen + 16\<close> bytes, the generated private key
  encodes, and decoding the encoding gives a key that \<open>Equals\<close> the generated key (same
  curve, equal scalar).
\<close>

theorem private_key_roundtrip:
  assumes "Nlen_of (curve a) + 16 \<le> int (length seed)"
  shows "\<exists>sk enc sk'. generatePrivateKey a seed = Inr sk
           \<and> PrKeyECDSA_Encode sk = Inr enc
           \<and> decodePrivateKey a enc = Inr sk'
           \<and> PrKeyECDSA_Equals sk' (ECDSAPrivateKey sk)"
proof -
  let ?d = "SetBytes seed mod (N (Params (curve a)) - 1) + 1"
  let ?sk = "\<lparr>alg = a, goPrKey =
        \<lparr>PublicKey = \<lparr>Curve = curve a,
            X = fst (ScalarBaseMult (curve a) (Bytes ?d)),
            Y = snd (ScalarBaseMult (curve a) (Bytes ?d))\<rparr>,
          D = ?d\<rparr>\<rparr>"
  let ?enc = "replicate (32 - length (Bytes ?d)) 0 @ Bytes ?d"
  have len: "\<not> int (length seed) < 48" using assms by (simp add: Nlen_eq)
  then have gen: "generatePrivateKey a seed = Inr ?sk" by (simp add: generatePrivateKey_eq)
  have r: "1 \<le> ?d \<and> ?d \<le> N (Params (curve a)) - 1" by (rule scalar_range)
  then have d0: "0 \<le> ?d" and d1: "?d < 2 ^ 256" using N_bounds [of "curve a"] by simp_all
  have "?d < 256 ^ 32" using d1 by (simp only: pow256_32)
  with d0 have lb: "length (Bytes ?d) \<le> 32" by (rule length_Bytes)
  have enc: "PrKeyECDSA_Encode ?sk = Inr ?enc"
    unfolding PrKeyECDSA_Encode_def using PrKeyECDSA_rawEncode_eq [of ?sk] d0 d1 by simp
  have le: "int (length ?enc) = Nlen_of (curve a)" using lb by (simp add: Nlen_eq)
  have val: "SetBytes ?enc = ?d" using d0 by (simp add: SetBytes_pad SetBytes_Bytes)
  obtain sk' where dec: "decodePrivateKey a ?enc = Inr sk'"
    and cv: "curve (alg sk') = curve a" and dd: "D (goPrKey sk') = ?d"
    using le val by (simp add: decodePrivateKey_def rawDecodePrivateKey_eq)
  have "PrKeyECDSA_Equals sk' (ECDSAPrivateKey ?sk)"
    using cv dd by (simp add: PrKeyECDSA_Equals_def)
  with gen enc dec show ?thesis by blast
qed

theorem private_key_roundtrip_witness:
  "Nlen_of (curve newECDSAP256) + 16 \<le> int (length (replicate 48 (1::byte)))
   \<and> (\<exists>sk enc sk'. generatePrivateKey newECDSAP256 (replicate 48 1) = Inr sk
           \<and> PrKeyECDSA_Encode sk = Inr enc
           \<and> decodePrivateKey newECDSAP256 enc = Inr sk'
           \<and> PrKeyECDSA_Equals sk' (ECDSAPrivateKey sk))"
proof -
  have h: "Nlen_of (curve newECDSAP256) + 16 \<le> int (length (replicate 48 (1::byte)))"
    by (simp add: Nlen_eq)
  from h private_key_roundtrip [OF h] show ?thesis by (rule conjI)
qed

text \<open>
  Claim C10. For every key that the package constructs, the encoding has exactly
  \<open>Size()\<close> bytes: a private key from \<open>generatePrivateKey\<close> or \<open>decodePrivateKey\<close>
  encodes to \<open>Nlen\<close> bytes, and a public key from \<open>decodePublicKey\<close> or from the
  \<open>PublicKey()\<close> of such a private key encodes to \<open>2 * Plen\<close> bytes, whatever the size
  of the scalar and of the coordinates.
\<close>

theorem Encode_length_equals_Size:
  "(generatePrivateKey ag seed = Inr skg \<longrightarrow>
      (\<exists>enc. PrKeyECDSA_Encode skg = Inr enc \<and> int (length enc) = PrKeyECDSA_Size skg
             \<and> PrKeyECDSA_Size skg = Nlen_of (curve (alg skg)))
    \<and> (\<exists>enc. PubKeyECDSA_Encode (PrKeyECDSA_PublicKey skg) = Inr enc
             \<and> int (length enc) = PubKeyECDSA_Size (PrKeyECDSA_PublicKey skg)
             \<and> PubKeyECDSA_Size (PrKeyECDSA_PublicKey skg) = 2 * Plen_of (curve (alg skg))))
   \<and> (decodePrivateKey ad der = Inr skd \<longrightarrow>
      (\<exists>enc. PrKeyECDSA_Encode skd = Inr enc \<and> int (length enc) = PrKeyECDSA_Size skd
             \<and> PrKeyECDSA_Size skd = Nlen_of (curve (alg skd)))
    \<and> (\<exists>enc. PubKeyECDSA_Encode (PrKeyECDSA_PublicKey skd) = Inr enc
             \<and> int (length enc) = PubKeyECDSA_Size (PrKeyECDSA_PublicKey skd)
             \<and> PubKeyECDSA_Size (PrKeyECDSA_PublicKey skd) = 2 * Plen_of (curve (alg skd))))
   \<and> (decodePublicKey ap der' = Inr pk \<longrightarrow>
      (\<exists>enc. PubKeyECDSA_Encode pk = Inr enc \<and> int (length enc) = PubKeyECDSA_Size pk
             \<and> PubKeyECDSA_Size pk = 2 * Plen_of (curve (pk_alg pk))))"
proof (intro conjI impI)
  assume g: "generatePrivateKey ag seed = Inr skg"
  note b = generated_key_bounds [OF g]
  show "\<exists>enc. PrKeyECDSA_Encode skg = Inr enc \<and> int (length enc) = PrKeyECDSA_Size skg
             \<and> PrKeyECDSA_Size skg = Nlen_of (curve (alg skg))"
    using PrKeyECDSA_Encode_length [of skg] b by (simp add: PrKeyECDSA_Size_def)
  show "\<exists>enc. PubKeyECDSA_Encode (PrKeyECDSA_PublicKey skg) = Inr enc
             \<and> int (length enc) = PubKeyECDSA_Size (PrKeyECDSA_PublicKey skg)
             \<and> PubKeyECDSA_Size (PrKeyECDSA_PublicKey skg) = 2 * Plen_of (curve (alg skg))"
    using PubKeyECDSA_Encode_length [of "PrKeyECDSA_PublicKey skg"] b
    by (simp add: PubKeyECDSA_Size_def PrKeyECDSA_PublicKey_def Plen_eq)
next
  assume g: "decodePrivateKey ad der = Inr skd"
  note b = decoded_private_key_bounds [OF g]
  show "\<exists>enc. PrKeyECDSA_Encode skd = Inr enc \<and> int (length enc) = PrKeyECDSA_Size skd
             \<and> PrKeyECDSA_Size skd = Nlen_of (curve (alg skd))"
    using PrKeyECDSA_Encode_length [of skd] b by (simp add: PrKeyECDSA_Size_def)
  show "\<exists>enc. PubKeyECDSA_Encode (PrKeyECDSA_PublicKey skd) = Inr enc
             \<and> int (length enc) = PubKeyECDSA_Size (PrKeyECDSA_PublicKey skd)
             \<and> PubKeyECDSA_Size (PrKeyECDSA_PublicKey skd) = 2 * Plen_of (curve (alg skd))"
    using PubKeyECDSA_Encode_length [of "PrKeyECDSA_PublicKey skd"] b
    by (simp add: PubKeyECDSA_Size_def PrKeyECDSA_PublicKey_def Plen_eq)
next
  assume g: "decodePublicKey ap der' = Inr pk"
  note b = decoded_public_key_bounds [OF g]
  show "\<exists>enc. PubKeyECDSA_Encode pk = Inr enc \<and> int (length enc) = PubKeyECDSA_Size pk
             \<and> PubKeyECDSA_Size pk = 2 * Plen_of (curve (pk_alg pk))"
    using PubKeyECDSA_Encode_length [of pk] b
    by (simp add: PubKeyECDSA_Size_def Plen_eq)
qed

text \<open>
  The key of the 48-byte seed of all \<open>0x01\<close> on P-256 has a scalar of 31 bytes: its
  encoding starts with a zero byte. The key decoded from 32 zero bytes has scalar 0.
\<close>

theorem Encode_length_equals_Size_witness:
  "(\<exists>sk. generatePrivateKey newECDSAP256 (replicate 48 1) = Inr sk
      \<and> PrKeyECDSA_Encode sk
          = Inr [0, 67, 92, 97, 180, 80, 81, 184, 134, 236, 26, 177, 105, 54, 0, 10,
                 165, 12, 168, 27, 254, 153, 106, 212, 28, 12, 41, 25, 44, 40, 139, 178]
      \<and> PrKeyECDSA_Size sk = 32
      \<and> (\<exists>enc. PubKeyECDSA_Encode (PrKeyECDSA_PublicKey sk) = Inr enc
             \<and> int (length enc) = PubKeyECDSA_Size (PrKeyECDSA_PublicKey sk)))
   \<and> (\<exists>sk enc. decodePrivateKey newECDSAP256 (replicate 32 0) = Inr sk
      \<and> PrKeyECDSA_Encode sk = Inr enc \<and> int (length enc) = PrKeyECDSA_Size sk)
   \<and> (\<exists>pk enc. decodePublicKey newECDSAP256 (replicate 64 0) = Inr pk
      \<and> PubKeyECDSA_Encode pk = Inr enc \<and> int (length enc) = PubKeyECDSA_Size pk)"
proof -
  obtain skg where g: "generatePrivateKey newECDSAP256 (replicate 48 1) = Inr skg"
    by (simp add: generatePrivateKey_eq)
  obtain skd where d: "decodePrivateKey newECDSAP256 (replicate 32 0) = Inr skd"
    by (simp add: decodePrivateKey_def rawDecodePrivateKey_eq Nlen_eq del: Params.simps)
  obtain pk where p: "decodePublicKey newECDSAP256 (replicate 64 0) = Inr pk"
    by (simp add: decodePublicKey_def rawDecodePublicKey_eq Plen_eq del: Params.simps)
  note t = Encode_length_equals_Size
    [of newECDSAP256 "replicate 48 1" skg newECDSAP256 "replicate 32 0" skd
        newECDSAP256 "replicate 64 0" pk]
  have sz: "PrKeyECDSA_Size skg = 32" by (simp add: PrKeyECDSA_Size_def Nlen_eq)
  have "D (goPrKey skg) = 0x435c61b45051b886ec1ab16936000aa50ca81bfe996ad41c0c29192c288bb2"
    using g by (auto simp: generatePrivateKey_eq SetBytes_seed48 curve_newECDSAP256)
  then have e: "PrKeyECDSA_Encode skg
          = Inr [0, 67, 92, 97, 180, 80, 81, 184, 134, 236, 26, 177, 105, 54, 0, 10,
                 165, 12, 168, 27, 254, 153, 106, 212, 28, 12, 41, 25, 44, 40, 139, 178]"
    using PrKeyECDSA_rawEncode_eq [of skg]
    by (simp add: PrKeyECDSA_Encode_def Bytes_example)
  have 1: "\<exists>enc. PubKeyECDSA_Encode (PrKeyECDSA_PublicKey skg) = Inr enc
             \<and> int (length enc) = PubKeyECDSA_Size (PrKeyECDSA_PublicKey skg)"
    using t g by blast
  have 2: "\<exists>enc. PrKeyECDSA_Encode skd = Inr enc \<and> int (length enc) = PrKeyECDSA_Size skd"
    using t d by blast
  have 3: "\<exists>enc. PubKeyECDSA_Encode pk = Inr enc \<and> int (length enc) = PubKeyECDSA_Size pk"
    using t p by blast
  from g e sz 1 2 3 d p show ?thesis by blast
qed

end
